theory Spec2Isabelle
  imports Complex_Main
begin

section \<open>Python floats\<close>

text \<open>
  The class \<open>Mortgage\<close> of \<open>Mortgage_Calculator.py\<close> computes with Python floats, which
  are IEEE 754 binary64 numbers. A float is modelled as the real number it denotes, or
  one of the two infinities, or NaN. Every arithmetic operation returns the exact result
  rounded to the nearest binary64 number, a tie going to the even mantissa, and an
  infinity where that leaves the range.

  The sign of a zero is not represented: \<open>0.0\<close> and \<open>-0.0\<close> are both \<open>Fin 0\<close>. They are
  equal in Python, both raise \<open>ZeroDivisionError\<close> as divisors, and the two differ only
  where one is printed.
\<close>

datatype pyfloat = Fin real | PInf | NInf | NaN

definition round_half_even :: "real \<Rightarrow> int" where
  "round_half_even y =
     (let f = \<lfloor>y\<rfloor>; r = y - of_int f
      in if r < 1 / 2 then f else if 1 / 2 < r then f + 1
         else if even f then f else f + 1)"

text \<open>
  \<open>rnd x\<close> is the binary64 number nearest to the real \<open>x\<close>. In the binade
  \<open>2^e \<le> |x| < 2^(e+1)\<close> the binary64 numbers are the multiples of the quantum
  \<open>2^(e-52)\<close>; below \<open>2^(-1022)\<close> they are the multiples of \<open>2^(-1074)\<close>; a result of
  \<open>2^1024\<close> is infinite.
\<close>

definition binade :: "real \<Rightarrow> int" where
  "binade x = max \<lfloor>log 2 \<bar>x\<bar>\<rfloor> (- 1022)"

definition quantum :: "real \<Rightarrow> real" where
  "quantum x = 2 powi (binade x - 52)"

definition rnd :: "real \<Rightarrow> pyfloat" where
  "rnd x =
     (if x = 0 then Fin 0
      else
        let q = quantum x;
            r = of_int (round_half_even (x / q)) * q
        in if 2 ^ 1024 \<le> r then PInf
           else if r \<le> - (2 ^ 1024) then NInf
           else Fin r)"

text \<open>The reals that are binary64 numbers: rounding leaves them as they are.\<close>

definition is_double :: "real \<Rightarrow> bool" where
  "is_double x \<longleftrightarrow> rnd x = Fin x"

text \<open>Whether a float is above zero, its negation and its absolute value.\<close>

fun positive :: "pyfloat \<Rightarrow> bool" where
  "positive (Fin x) = (0 < x)"
| "positive PInf = True"
| "positive NInf = False"
| "positive NaN = False"

fun fneg :: "pyfloat \<Rightarrow> pyfloat" where
  "fneg (Fin x) = Fin (- x)"
| "fneg PInf = NInf"
| "fneg NInf = PInf"
| "fneg NaN = NaN"

fun fabs :: "pyfloat \<Rightarrow> pyfloat" where
  "fabs (Fin x) = Fin \<bar>x\<bar>"
| "fabs PInf = PInf"
| "fabs NInf = PInf"
| "fabs NaN = NaN"

text \<open>
  The operators \<open>+\<close>, \<open>-\<close> and \<open>*\<close> on floats. None of them raises: a result out of range
  is an infinity, and an undefined one, \<open>inf - inf\<close> or \<open>inf * 0.0\<close>, is NaN.
\<close>

fun fadd :: "pyfloat \<Rightarrow> pyfloat \<Rightarrow> pyfloat" where
  "fadd (Fin x) (Fin y) = rnd (x + y)"
| "fadd NaN b = NaN"
| "fadd a NaN = NaN"
| "fadd PInf NInf = NaN"
| "fadd NInf PInf = NaN"
| "fadd PInf b = PInf"
| "fadd NInf b = NInf"
| "fadd a PInf = PInf"
| "fadd a NInf = NInf"

definition fsub :: "pyfloat \<Rightarrow> pyfloat \<Rightarrow> pyfloat" where
  "fsub a b = fadd a (fneg b)"

fun fmul :: "pyfloat \<Rightarrow> pyfloat \<Rightarrow> pyfloat" where
  "fmul (Fin x) (Fin y) = rnd (x * y)"
| "fmul NaN b = NaN"
| "fmul a NaN = NaN"
| "fmul a b =
     (if a = Fin 0 \<or> b = Fin 0 then NaN
      else if positive a = positive b then PInf else NInf)"

text \<open>
  The quotient of IEEE 754 for a divisor other than zero, and Python's \<open>a / b\<close>, which
  raises \<open>ZeroDivisionError\<close> on a zero divisor before it divides.
\<close>

fun fquot :: "pyfloat \<Rightarrow> pyfloat \<Rightarrow> pyfloat" where
  "fquot (Fin x) (Fin y) = rnd (x / y)"
| "fquot NaN b = NaN"
| "fquot a NaN = NaN"
| "fquot (Fin x) b = Fin 0"
| "fquot a (Fin y) = (if positive a = (0 < y) then PInf else NInf)"
| "fquot a b = NaN"

datatype error = ValueError | ZeroDivisionError | OverflowError | ComplexValue

definition fdiv :: "pyfloat \<Rightarrow> pyfloat \<Rightarrow> error + pyfloat" where
  "fdiv a b = (if b = Fin 0 then Inl ZeroDivisionError else Inr (fquot a b))"

text \<open>
  An \<open>int\<close> operand of a float operation is converted first: rounded to the nearest
  float, and \<open>OverflowError\<close> where that is infinite.
\<close>

definition float_of_int :: "int \<Rightarrow> error + pyfloat" where
  "float_of_int i =
     (case rnd (of_int i) of Fin r \<Rightarrow> Inr (Fin r) | _ \<Rightarrow> Inl OverflowError)"

subsection \<open>The power operator\<close>

text \<open>
  \<open>x ** y\<close> on floats is \<open>float_pow\<close> of CPython. It settles the special cases itself, in
  this order: a zero exponent, a NaN, an infinite exponent, an infinite base, a zero
  base, a negative base; a base of 1 after that. What is left, a positive finite base
  other than 1 and a finite exponent other than 0, goes to the \<open>pow\<close> of the C library,
  which is not code of this repository: it is the parameter \<open>pw\<close>, giving \<open>None\<close> where
  \<open>pow\<close> reports a range error, which CPython raises as \<open>OverflowError\<close>.

  \<open>ComplexValue\<close> is not an exception: a negative base with a fractional exponent makes
  Python 3 go on with a \<open>complex\<close> number; the model stops there.
\<close>

definition integral :: "real \<Rightarrow> bool" where
  "integral y \<longleftrightarrow> y = of_int \<lfloor>y\<rfloor>"

definition odd_integer :: "real \<Rightarrow> bool" where
  "odd_integer y \<longleftrightarrow> integral y \<and> odd \<lfloor>y\<rfloor>"

type_synonym libm_pow = "real \<Rightarrow> real \<Rightarrow> real option"

definition finite_pow :: "libm_pow \<Rightarrow> real \<Rightarrow> real \<Rightarrow> error + pyfloat" where
  "finite_pow pw x y =
     (if x = 0 then (if y < 0 then Inl ZeroDivisionError else Inr (Fin 0))
      else if x < 0 \<and> \<not> integral y then Inl ComplexValue
      else
        let negate_result = (x < 0 \<and> odd_integer y)
        in if \<bar>x\<bar> = 1 then Inr (Fin (if negate_result then - 1 else 1))
           else case pw \<bar>x\<bar> y of
                  None \<Rightarrow> Inl OverflowError
                | Some r \<Rightarrow> Inr (Fin (if negate_result then - r else r)))"

fun float_pow :: "libm_pow \<Rightarrow> pyfloat \<Rightarrow> pyfloat \<Rightarrow> error + pyfloat" where
  "float_pow pw v (Fin y) =
     (if y = 0 then Inr (Fin 1)
      else case v of
             NaN \<Rightarrow> Inr NaN
           | PInf \<Rightarrow> Inr (if 0 < y then PInf else Fin 0)
           | NInf \<Rightarrow> Inr (if 0 < y then (if odd_integer y then NInf else PInf) else Fin 0)
           | Fin x \<Rightarrow> finite_pow pw x y)"
| "float_pow pw NaN w = Inr NaN"
| "float_pow pw v NaN = Inr (if v = Fin 1 then Fin 1 else NaN)"
| "float_pow pw v w =
     (if fabs v = Fin 1 then Inr (Fin 1)
      else if (w = PInf) = (case fabs v of Fin x \<Rightarrow> 1 < x | _ \<Rightarrow> True) then Inr PInf
      else Inr (Fin 0))"

text \<open>
  The correctly rounded power, for where a particular \<open>pow\<close> is wanted: it is exact
  where the power is a binary64 number.
\<close>

definition pow_rn :: libm_pow where
  "pow_rn x y = (case rnd (x powr y) of Fin r \<Rightarrow> Some r | _ \<Rightarrow> None)"

text \<open>
  A Python number that may be an \<open>int\<close> or a \<open>float\<close>, as the argument \<open>n\<close> of
  \<open>balance_after\<close> is. Arguments of other types, the numpy integers of
  \<open>draw_balance_graph\<close> among them, are not modelled.
\<close>

datatype pynum = PyInt int | PyFloat pyfloat

fun py_pow :: "libm_pow \<Rightarrow> pyfloat \<Rightarrow> pynum \<Rightarrow> error + pyfloat" where
  "py_pow pw v (PyInt i) =
     (case float_of_int i of Inl e \<Rightarrow> Inl e | Inr w \<Rightarrow> float_pow pw v w)"
| "py_pow pw v (PyFloat w) = float_pow pw v w"

text \<open>\<open>365 * n\<close>, exact on an \<open>int\<close> and a float product on a float.\<close>

fun times_365 :: "pynum \<Rightarrow> pynum" where
  "times_365 (PyInt i) = PyInt (365 * i)"
| "times_365 (PyFloat w) = PyFloat (fmul (Fin 365) w)"

text \<open>\<open>n < 0\<close> and \<open>n > Y\<close> for an \<open>int\<close> \<open>Y\<close>: exact comparisons, false on NaN.\<close>

fun less_zero :: "pynum \<Rightarrow> bool" where
  "less_zero (PyInt i) = (i < 0)"
| "less_zero (PyFloat (Fin x)) = (x < 0)"
| "less_zero (PyFloat NInf) = True"
| "less_zero (PyFloat w) = False"

fun greater_int :: "pynum \<Rightarrow> int \<Rightarrow> bool" where
  "greater_int (PyInt i) Y = (Y < i)"
| "greater_int (PyFloat (Fin x)) Y = (of_int Y < x)"
| "greater_int (PyFloat PInf) Y = True"
| "greater_int (PyFloat w) Y = False"

section \<open>The class Mortgage\<close>

text \<open>
  The loan amount and the interest rate are floats; the term and the repayment
  frequency are \<open>int\<close>s, as the docstring of the constructor and the
  \<open>np.arange(1, self.years + 1)\<close> of \<open>draw_balance_graph\<close> have them.
\<close>

record Mortgage =
  loan :: pyfloat
  years :: int
  interest :: pyfloat
  r_frequency :: int

text \<open>
  \<open>daily_interest_factor = 1 + p / 365\<close> with \<open>p = self.interest / 100\<close>, a local of both
  \<open>repayments\<close> and \<open>balance_after\<close>. The divisors are not zero.
\<close>

definition daily_interest_factor :: "Mortgage \<Rightarrow> pyfloat" where
  "daily_interest_factor M =
     (let p = fquot (interest M) (Fin 100) in fadd (Fin 1) (fquot p (Fin 365)))"

text \<open>
  \<open>Mortgage.repayments\<close>: the numerator is evaluated left to right, then the denominator,
  then the quotient.
\<close>

definition repayments :: "libm_pow \<Rightarrow> Mortgage \<Rightarrow> error + pyfloat" where
  "repayments pw M =
     (let L = loan M; Y = years M; k = r_frequency M;
          d = daily_interest_factor M
      in case py_pow pw d (PyInt (365 * Y)) of Inl e \<Rightarrow> Inl e | Inr a \<Rightarrow>
        (case py_pow pw d (PyInt k) of Inl e \<Rightarrow> Inl e | Inr b \<Rightarrow>
          (let numerator = fmul (fmul L a) (fsub b (Fin 1))
           in case py_pow pw d (PyInt (365 * Y)) of Inl e \<Rightarrow> Inl e | Inr c \<Rightarrow>
             (let denominator = fsub c (Fin 1)
              in fdiv numerator denominator))))"

text \<open>
  \<open>Mortgage.balance_after\<close>: the range check comes first, then \<open>self.repayments()\<close>, then
  the balance formula.
\<close>

definition balance_after :: "libm_pow \<Rightarrow> Mortgage \<Rightarrow> pynum \<Rightarrow> error + pyfloat" where
  "balance_after pw M n =
     (if less_zero n \<or> greater_int n (years M) then Inl ValueError
      else
        let L = loan M; k = r_frequency M
        in case repayments pw M of Inl e \<Rightarrow> Inl e | Inr P0 \<Rightarrow>
          (let d = daily_interest_factor M
           in case py_pow pw d (times_365 n) of Inl e \<Rightarrow> Inl e | Inr a \<Rightarrow>
             (case py_pow pw d (times_365 n) of Inl e \<Rightarrow> Inl e | Inr b \<Rightarrow>
               (case py_pow pw d (PyInt k) of Inl e \<Rightarrow> Inl e | Inr c \<Rightarrow>
                 (case fdiv (fsub b (Fin 1)) (fsub c (Fin 1)) of Inl e \<Rightarrow> Inl e | Inr q \<Rightarrow>
                    Inr (fsub (fmul L a) (fmul P0 q)))))))"

section \<open>Formatting\<close>

text \<open>The decimal digits of an integer, as \<open>str\<close> and an f-string print it.\<close>

definition digit_char :: "nat \<Rightarrow> char" where
  "digit_char n = ''0123456789'' ! n"

fun str_nat :: "nat \<Rightarrow> string" where
  "str_nat n =
     (if n < 10 then [digit_char n] else str_nat (n div 10) @ [digit_char (n mod 10)])"

declare str_nat.simps [simp del]

definition str_int :: "int \<Rightarrow> string" where
  "str_int i = (if i < 0 then ''-'' @ str_nat (nat (- i)) else str_nat (nat i))"

text \<open>
  The format \<open>:.2f\<close>: the value rounded to hundredths, a tie going to the even
  neighbour, printed with its sign, its integer part and two decimals; \<open>inf\<close> and \<open>nan\<close>
  for what is not a number.
\<close>

fun format_2f :: "pyfloat \<Rightarrow> string" where
  "format_2f (Fin x) =
     (let c = nat (round_half_even (100 * \<bar>x\<bar>))
      in (if x < 0 then ''-'' else '''') @ str_nat (c div 100) @ ''.''
         @ [digit_char (c mod 100 div 10), digit_char (c mod 10)])"
| "format_2f PInf = ''inf''"
| "format_2f NInf = ''-inf''"
| "format_2f NaN = ''nan''"

text \<open>The dictionary \<open>frequency_map\<close> of \<open>__str__\<close>, and \<open>dict.get\<close> with a default.\<close>

definition frequency_map :: "int \<rightharpoonup> string" where
  "frequency_map = [7 \<mapsto> ''Weekly'', 14 \<mapsto> ''Fortnightly'', 30 \<mapsto> ''Monthly'']"

definition dict_get :: "('k \<rightharpoonup> 'v) \<Rightarrow> 'k \<Rightarrow> 'v \<Rightarrow> 'v" where
  "dict_get m k dflt = (case m k of Some v \<Rightarrow> v | None \<Rightarrow> dflt)"

text \<open>The label \<open>frequency_str\<close> that \<open>__str__\<close> computes from \<open>self.r_frequency\<close>.\<close>

definition frequency_str :: "Mortgage \<Rightarrow> string" where
  "frequency_str M =
     dict_get frequency_map (r_frequency M) (str_int (r_frequency M) @ '' days'')"

text \<open>
  \<open>Mortgage.__str__\<close>: \<open>self.repayments()\<close> is called first, so the summary exists only
  when the repayment amount does.
\<close>

definition str_Mortgage :: "libm_pow \<Rightarrow> Mortgage \<Rightarrow> error + string" where
  "str_Mortgage pw M =
     (case repayments pw M of Inl e \<Rightarrow> Inl e | Inr repayment_amount \<Rightarrow>
        Inr (''Loan Amount: '' @ format_2f (loan M) @ '' AUD'' @ [CHR 0x0A]
             @ ''Loan Term (Years): '' @ str_int (years M) @ [CHR 0x0A]
             @ ''Interest: '' @ format_2f (interest M) @ ''%'' @ [CHR 0x0A]
             @ frequency_str M @ '' Repayments: '' @ format_2f repayment_amount
             @ '' AUD''))"

section \<open>Valid loan terms\<close>

text \<open>
  The loan terms the specification calls valid: a positive principal, a positive term,
  a positive rate and one of the three repayment intervals; the principal and the rate
  are binary64 numbers.
\<close>

fun positive_double :: "pyfloat \<Rightarrow> bool" where
  "positive_double (Fin x) = (0 < x \<and> is_double x)"
| "positive_double v = False"

definition valid_terms :: "Mortgage \<Rightarrow> bool" where
  "valid_terms M \<longleftrightarrow>
     positive_double (loan M) \<and> 0 < years M \<and> positive_double (interest M)
     \<and> r_frequency M \<in> {7, 14, 30}"

section \<open>The formulas in exact arithmetic\<close>




section \<open>Example loans\<close>

text \<open>
  Loans at which the functions are evaluated below. The first three have a daily factor
  of exactly 2, 1.5 and 4, at rates of 36500, 18250 and 109500 percent, so that every
  power is a rational number that can be written out; the fourth has a rate of
  \<open>2^(-40)\<close> percent, so small that the daily factor rounds to 1.0; the last ones
  have a principal of \<open>2^1023\<close>, the largest power of two among the floats.
\<close>

abbreviation (input) loan_factor_2 :: Mortgage where
  "loan_factor_2 \<equiv> \<lparr>loan = Fin 1000, years = 1, interest = Fin 36500, r_frequency = 7\<rparr>"


abbreviation (input) loan_factor_4 :: Mortgage where
  "loan_factor_4 \<equiv> \<lparr>loan = Fin 1000, years = 1, interest = Fin 109500, r_frequency = 7\<rparr>"

abbreviation (input) loan_tiny_rate :: Mortgage where
  "loan_tiny_rate \<equiv>
     \<lparr>loan = Fin 300000, years = 30, interest = Fin (1 / 2 ^ 40), r_frequency = 30\<rparr>"

abbreviation (input) loan_huge :: "int \<Rightarrow> Mortgage" where
  "loan_huge k \<equiv>
     \<lparr>loan = Fin (2 ^ 1023), years = 1, interest = Fin 36500, r_frequency = k\<rparr>"

section \<open>Rounding to binary64\<close>

lemma round_half_even_of_int: "round_half_even (of_int m) = m"
  by (simp add: round_half_even_def)

lemma round_half_even_ge: "of_int m \<le> y \<Longrightarrow> m \<le> round_half_even y"
proof -
  assume "of_int m \<le> y"
  then have "m \<le> \<lfloor>y\<rfloor>" by (simp add: le_floor_iff)
  then show ?thesis by (simp add: round_half_even_def Let_def)
qed

lemma round_half_even_le: "y \<le> of_int m \<Longrightarrow> round_half_even y \<le> m"
proof -
  assume y: "y \<le> of_int m"
  then have f: "\<lfloor>y\<rfloor> \<le> m" by (simp add: floor_le_iff)
  show ?thesis
  proof (cases "y = of_int \<lfloor>y\<rfloor>")
    case True
    then have "y - of_int \<lfloor>y\<rfloor> = 0" by simp
    then show ?thesis using f by (simp add: round_half_even_def Let_def)
  next
    case False
    then have "of_int \<lfloor>y\<rfloor> < y" using of_int_floor_le [of y] by linarith
    then have "of_int \<lfloor>y\<rfloor> < (of_int m :: real)" using y by linarith
    then have "\<lfloor>y\<rfloor> + 1 \<le> m" by simp
    then show ?thesis by (simp add: round_half_even_def Let_def)
  qed
qed

lemma floor_log2_eq:
  fixes x :: real
  assumes "2 powi e \<le> x" "x < 2 powi (e + 1)"
  shows "\<lfloor>log 2 x\<rfloor> = e"
proof -
  have x: "0 < x" using assms(1) zero_less_power_int [of "2::real" e] by linarith
  have "2 powr real_of_int e = (2::real) powi e" by (rule powr_real_of_int') simp_all
  moreover have "2 powr real_of_int (e + 1) = (2::real) powi (e + 1)"
    by (rule powr_real_of_int') simp_all
  ultimately have "2 powr real_of_int e \<le> x \<and> x < 2 powr real_of_int (e + 1)"
    using assms by simp
  then show ?thesis using floor_log_eq_powr_iff [OF x, of 2 e] by simp
qed

lemma floor_log2_bounds:
  fixes x :: real
  assumes "0 < x"
  shows "2 powi \<lfloor>log 2 x\<rfloor> \<le> x" "x < 2 powi (\<lfloor>log 2 x\<rfloor> + 1)"
proof -
  have a: "2 powr real_of_int \<lfloor>log 2 x\<rfloor> = (2::real) powi \<lfloor>log 2 x\<rfloor>"
    by (rule powr_real_of_int') simp_all
  have b: "2 powr real_of_int (\<lfloor>log 2 x\<rfloor> + 1) = (2::real) powi (\<lfloor>log 2 x\<rfloor> + 1)"
    by (rule powr_real_of_int') simp_all
  have "2 powr real_of_int \<lfloor>log 2 x\<rfloor> \<le> x \<and> x < 2 powr real_of_int (\<lfloor>log 2 x\<rfloor> + 1)"
    using floor_log_eq_powr_iff [OF assms, of 2 "\<lfloor>log 2 x\<rfloor>"] by simp
  then show "2 powi \<lfloor>log 2 x\<rfloor> \<le> x" "x < 2 powi (\<lfloor>log 2 x\<rfloor> + 1)"
    using a b by simp_all
qed

lemma binade_eq:
  assumes "2 powi e \<le> \<bar>x\<bar>" "\<bar>x\<bar> < 2 powi (e + 1)" "- 1022 \<le> e"
  shows "binade x = e"
  using floor_log2_eq [OF assms(1,2)] assms(3) by (simp add: binade_def)

lemma binade_ge: "- 1022 \<le> binade x"
  by (simp add: binade_def)

lemma binade_upper: "x \<noteq> 0 \<Longrightarrow> \<bar>x\<bar> < 2 powi (binade x + 1)"
proof -
  assume "x \<noteq> 0"
  then have x: "0 < \<bar>x\<bar>" by simp
  have "\<lfloor>log 2 \<bar>x\<bar>\<rfloor> + 1 \<le> binade x + 1" by (simp add: binade_def)
  then have "(2::real) powi (\<lfloor>log 2 \<bar>x\<bar>\<rfloor> + 1) \<le> 2 powi (binade x + 1)"
    by (intro power_int_increasing) simp_all
  then show ?thesis using floor_log2_bounds(2) [OF x] by linarith
qed

lemma binade_lower: "x \<noteq> 0 \<Longrightarrow> - 1022 < binade x \<Longrightarrow> 2 powi (binade x) \<le> \<bar>x\<bar>"
proof -
  assume "x \<noteq> 0" and b: "- 1022 < binade x"
  then have x: "0 < \<bar>x\<bar>" by simp
  have "binade x = \<lfloor>log 2 \<bar>x\<bar>\<rfloor>" using b by (simp add: binade_def max_def split: if_splits)
  then show ?thesis using floor_log2_bounds(1) [OF x] by simp
qed

lemma binade_mono: "0 < x \<Longrightarrow> x \<le> y \<Longrightarrow> binade x \<le> binade y"
proof -
  assume "0 < x" "x \<le> y"
  then have "log 2 \<bar>x\<bar> \<le> log 2 \<bar>y\<bar>" by simp
  then have "\<lfloor>log 2 \<bar>x\<bar>\<rfloor> \<le> \<lfloor>log 2 \<bar>y\<bar>\<rfloor>" by (rule floor_mono)
  then show ?thesis by (simp add: binade_def)
qed

lemma quantum_pos: "0 < quantum x"
  by (simp add: quantum_def)

lemma rnd_binade:
  assumes "2 powi e \<le> \<bar>x\<bar>" "\<bar>x\<bar> < 2 powi (e + 1)" "- 1022 \<le> e"
  shows "rnd x =
    (let r = of_int (round_half_even (x / 2 powi (e - 52))) * 2 powi (e - 52)
     in if 2 ^ 1024 \<le> r then PInf else if r \<le> - (2 ^ 1024) then NInf else Fin r)"
proof -
  have "0 < \<bar>x\<bar>" using assms(1) zero_less_power_int [of "2::real" e] by linarith
  then have x: "x \<noteq> 0" by simp
  show ?thesis using x binade_eq [OF assms] by (simp add: rnd_def quantum_def Let_def)
qed

lemma rnd_subnormal:
  assumes "x \<noteq> 0" "\<bar>x\<bar> < 2 powi (- 1022)"
  shows "rnd x =
    (let r = of_int (round_half_even (x / 2 powi (- 1074))) * 2 powi (- 1074)
     in if 2 ^ 1024 \<le> r then PInf else if r \<le> - (2 ^ 1024) then NInf else Fin r)"
proof -
  have x: "0 < \<bar>x\<bar>" using assms(1) by simp
  have "\<not> - 1022 < binade x"
  proof
    assume b: "- 1022 < binade x"
    then have "- 1022 \<le> binade x" by simp
    then have "(2::real) powi (- 1022) \<le> 2 powi (binade x)"
      by (intro power_int_increasing) simp_all
    then show False using binade_lower [OF assms(1) b] assms(2) by linarith
  qed
  then have "binade x = - 1022" using binade_ge [of x] by linarith
  then show ?thesis using assms(1) by (simp add: rnd_def quantum_def Let_def)
qed

text \<open>A multiple of a power of two with a mantissa of at most 53 bits is a binary64 number.\<close>

lemma rnd_exact:
  assumes x: "x = of_int m * 2 powi j" and m: "\<bar>m\<bar> < 2 ^ 53"
    and j: "- 1074 \<le> j" "j \<le> 971"
  shows "rnd x = Fin x"
proof (cases "x = 0")
  case True
  then show ?thesis by (simp add: rnd_def)
next
  case False
  have ax: "\<bar>x\<bar> = of_int \<bar>m\<bar> * 2 powi j" by (simp add: x abs_mult)
  have "(of_int \<bar>m\<bar> :: real) < of_int (2 ^ 53)" using m by (simp only: of_int_less_iff)
  then have "(of_int \<bar>m\<bar> :: real) < 2 ^ 53" by simp
  then have "\<bar>x\<bar> < 2 ^ 53 * 2 powi j" unfolding ax by (simp add: zero_less_power_int)
  also have "\<dots> = 2 powi (53 + j)" by (simp add: power_int_add)
  finally have up: "\<bar>x\<bar> < 2 powi (53 + j)" .
  have le: "binade x - 52 \<le> j"
  proof (cases "- 1022 < binade x")
    case True
    have "2 powi (binade x) \<le> \<bar>x\<bar>" using binade_lower [OF False True] .
    then have "(2::real) powi (binade x) < 2 powi (53 + j)" using up by linarith
    have "binade x < 53 + j"
    proof (rule ccontr)
      assume "\<not> binade x < 53 + j"
      then have "53 + j \<le> binade x" by simp
      then have "(2::real) powi (53 + j) \<le> 2 powi (binade x)"
        by (intro power_int_increasing) simp_all
      then show False using \<open>(2::real) powi (binade x) < 2 powi (53 + j)\<close> by linarith
    qed
    then show ?thesis by simp
  next
    case False
    then have "binade x = - 1022" using binade_ge [of x] by linarith
    then show ?thesis using j by simp
  qed
  define t where "t = nat (j - (binade x - 52))"
  have t: "j = (binade x - 52) + int t" using le by (simp add: t_def)
  define q where "q = quantum x"
  have q: "0 < q" by (simp add: q_def quantum_pos)
  have tj: "binade x - 52 + int t = j" using t by simp
  have "(2::real) powi (binade x - 52 + int t) = 2 powi (binade x - 52) * 2 ^ t"
    by (simp add: power_int_add)
  then have pj: "2 powi j = q * 2 ^ t"
    unfolding tj by (simp add: q_def quantum_def)
  have xq: "x / q = of_int (m * 2 ^ t)" using q by (simp add: x pj)
  have "of_int (round_half_even (x / q)) * q = x"
    unfolding xq round_half_even_of_int using q by (simp add: x pj)
  then have r: "of_int (round_half_even (x / quantum x)) * quantum x = x"
    by (simp only: q_def)
  have "(2::real) powi (53 + j) \<le> 2 powi 1024" using j by (intro power_int_increasing) simp_all
  then have "\<bar>x\<bar> < 2 ^ 1024" using up by simp
  then have "\<not> 2 ^ 1024 \<le> x" "\<not> x \<le> - (2 ^ 1024)" by linarith+
  then show ?thesis using False r by (simp add: rnd_def Let_def)
qed

lemma is_double_exact:
  "x = of_int m * 2 powi j \<Longrightarrow> \<bar>m\<bar> < 2 ^ 53 \<Longrightarrow> - 1074 \<le> j \<Longrightarrow> j \<le> 971 \<Longrightarrow> is_double x"
  unfolding is_double_def by (rule rnd_exact)

lemma rnd_of_int: "\<bar>m\<bar> < 2 ^ 53 \<Longrightarrow> rnd (of_int m) = Fin (of_int m)"
  by (rule rnd_exact [of _ m 0]) simp_all

text \<open>What a binary64 number is made of.\<close>

lemma is_double_structure:
  assumes "is_double d" "d \<noteq> 0"
  shows "d = of_int (round_half_even (d / quantum d)) * quantum d" "\<bar>d\<bar> < 2 ^ 1024"
proof -
  let ?r = "of_int (round_half_even (d / quantum d)) * quantum d"
  have "(if 2 ^ 1024 \<le> ?r then PInf else if ?r \<le> - (2 ^ 1024) then NInf else Fin ?r) = Fin d"
    using assms by (simp add: is_double_def rnd_def Let_def)
  then have "?r = d \<and> \<not> 2 ^ 1024 \<le> ?r \<and> \<not> ?r \<le> - (2 ^ 1024)"
    by (simp split: if_splits)
  then show "d = ?r" "\<bar>d\<bar> < 2 ^ 1024" by auto
qed

lemma quantum_times:
  "2 powi (binade x + 1) = 2 ^ 53 * quantum x"
  "2 powi (binade x) = 2 ^ 52 * quantum x"
proof -
  have "(2::real) powi (53 + (binade x - 52)) = 2 powi 53 * 2 powi (binade x - 52)"
    by (rule power_int_add) simp
  moreover have "53 + (binade x - 52) = binade x + 1" by simp
  ultimately show "2 powi (binade x + 1) = 2 ^ 53 * quantum x"
    by (simp add: quantum_def)
  have "(2::real) powi (52 + (binade x - 52)) = 2 powi 52 * 2 powi (binade x - 52)"
    by (rule power_int_add) simp
  moreover have "52 + (binade x - 52) = binade x" by simp
  ultimately show "2 powi (binade x) = 2 ^ 52 * quantum x"
    by (simp add: quantum_def)
qed

lemma rnd_upper:
  assumes x: "0 < x" "x \<le> hi" and hi: "is_double hi"
  shows "of_int (round_half_even (x / quantum x)) * quantum x \<le> hi"
proof -
  define q where "q = quantum x"
  have q: "0 < q" by (simp add: q_def quantum_pos)
  have h0: "hi \<noteq> 0" "0 < hi" using x by linarith+
  have bm: "binade x \<le> binade hi" using x by (rule binade_mono)
  have "of_int (round_half_even (x / q)) * q \<le> hi"
  proof (cases "binade x = binade hi")
    case True
    then have qh: "quantum hi = q" by (simp add: q_def quantum_def)
    define mh where "mh = round_half_even (hi / quantum hi)"
    have s: "hi = of_int mh * q"
      using is_double_structure(1) [OF hi h0(1)] by (simp add: mh_def qh)
    have "x / q \<le> hi / q" using x(2) q by (simp add: divide_right_mono)
    also have "hi / q = of_int mh" using q by (subst s) simp
    finally have "round_half_even (x / q) \<le> mh" by (rule round_half_even_le)
    then have "(of_int (round_half_even (x / q)) :: real) \<le> of_int mh" by simp
    then have "of_int (round_half_even (x / q)) * q \<le> of_int mh * q"
      using q by (simp add: mult_right_mono)
    then show ?thesis using s by simp
  next
    case False
    then have lt: "binade x + 1 \<le> binade hi" "- 1022 < binade hi"
      using bm binade_ge [of x] by linarith+
    have "2 powi (binade hi) \<le> \<bar>hi\<bar>" using binade_lower [OF h0(1) lt(2)] .
    then have a: "2 powi (binade hi) \<le> hi" using h0(2) by simp
    have b: "(2::real) powi (binade x + 1) \<le> 2 powi (binade hi)"
      using lt(1) by (intro power_int_increasing) simp_all
    have "x \<noteq> 0" using x by simp
    then have "\<bar>x\<bar> < 2 powi (binade x + 1)" by (rule binade_upper)
    then have "x \<le> 2 ^ 53 * q" using x(1) by (simp add: quantum_times q_def)
    then have "x / q \<le> 2 ^ 53" using q by (simp add: field_simps)
    also have "(2::real) ^ 53 = of_int (2 ^ 53)" by simp
    finally have "round_half_even (x / q) \<le> 2 ^ 53" by (rule round_half_even_le)
    then have "(of_int (round_half_even (x / q)) :: real) \<le> of_int (2 ^ 53)"
      by (simp only: of_int_le_iff)
    then have "of_int (round_half_even (x / q)) * q \<le> 2 ^ 53 * q"
      using q by (simp add: mult_right_mono)
    also have "\<dots> = 2 powi (binade x + 1)" by (simp add: quantum_times q_def)
    finally show ?thesis using a b by linarith
  qed
  then show ?thesis by (simp only: q_def)
qed

lemma rnd_lower:
  assumes lo: "0 < lo" "lo \<le> x" and d: "is_double lo"
  shows "lo \<le> of_int (round_half_even (x / quantum x)) * quantum x"
proof -
  define q where "q = quantum x"
  have q: "0 < q" by (simp add: q_def quantum_pos)
  have l0: "lo \<noteq> 0" and x0: "0 < x" "x \<noteq> 0" using lo by linarith+
  have bm: "binade lo \<le> binade x" using lo by (rule binade_mono)
  have "lo \<le> of_int (round_half_even (x / q)) * q"
  proof (cases "binade lo = binade x")
    case True
    then have ql: "quantum lo = q" by (simp add: q_def quantum_def)
    define ml where "ml = round_half_even (lo / quantum lo)"
    have s: "lo = of_int ml * q"
      using is_double_structure(1) [OF d l0] by (simp add: ml_def ql)
    have "of_int ml = lo / q" using q by (subst s) simp
    also have "\<dots> \<le> x / q" using lo(2) q by (simp add: divide_right_mono)
    finally have "ml \<le> round_half_even (x / q)" by (rule round_half_even_ge)
    then have "(of_int ml :: real) \<le> of_int (round_half_even (x / q))" by simp
    then have "of_int ml * q \<le> of_int (round_half_even (x / q)) * q"
      using q by (simp add: mult_right_mono)
    then show ?thesis using s by simp
  next
    case False
    then have lt: "binade lo + 1 \<le> binade x" "- 1022 < binade x"
      using bm binade_ge [of lo] by linarith+
    have "2 powi (binade x) \<le> \<bar>x\<bar>" using binade_lower [OF x0(2) lt(2)] .
    then have "2 ^ 52 * q \<le> x" using x0(1) by (simp add: quantum_times q_def)
    then have "2 ^ 52 \<le> x / q" using q by (simp add: field_simps)
    moreover have "(2::real) ^ 52 = of_int (2 ^ 52)" by simp
    ultimately have "of_int (2 ^ 52) \<le> x / q" by simp
    then have "2 ^ 52 \<le> round_half_even (x / q)" by (rule round_half_even_ge)
    then have "(of_int (2 ^ 52) :: real) \<le> of_int (round_half_even (x / q))"
      by (simp only: of_int_le_iff)
    then have "2 ^ 52 * q \<le> of_int (round_half_even (x / q)) * q"
      using q by (simp add: mult_right_mono)
    then have a: "2 powi (binade x) \<le> of_int (round_half_even (x / q)) * q"
      by (simp add: quantum_times q_def)
    have b: "(2::real) powi (binade lo + 1) \<le> 2 powi (binade x)"
      using lt(1) by (intro power_int_increasing) simp_all
    have "\<bar>lo\<bar> < 2 powi (binade lo + 1)" using l0 by (rule binade_upper)
    then show ?thesis using a b lo(1) by linarith
  qed
  then show ?thesis by (simp only: q_def)
qed

text \<open>Rounding is monotone: what lies between two binary64 numbers rounds between them.\<close>

lemma rnd_between:
  assumes "is_double lo" "is_double hi" "0 < lo" "lo \<le> x" "x \<le> hi"
  shows "\<exists>r. rnd x = Fin r \<and> lo \<le> r \<and> r \<le> hi"
proof -
  let ?r = "of_int (round_half_even (x / quantum x)) * quantum x"
  have x: "0 < x" using assms by linarith
  have l: "lo \<le> ?r" using assms(3,4,1) by (rule rnd_lower)
  have u: "?r \<le> hi" using x assms(5,2) by (rule rnd_upper)
  have "hi \<noteq> 0" using x assms by linarith
  then have "\<bar>hi\<bar> < 2 ^ 1024" using is_double_structure(2) [OF assms(2)] by simp
  then have "\<not> 2 ^ 1024 \<le> ?r" "\<not> ?r \<le> - (2 ^ 1024)" using l u assms(3) by linarith+
  then have "rnd x = Fin ?r" using x by (simp add: rnd_def Let_def)
  then show ?thesis using l u by blast
qed

lemma rnd_between_zero:
  assumes "is_double hi" "0 \<le> x" "x \<le> hi"
  shows "\<exists>r. rnd x = Fin r \<and> 0 \<le> r \<and> r \<le> hi"
proof (cases "x = 0")
  case True
  then show ?thesis using assms by (simp add: rnd_def)
next
  case False
  let ?r = "of_int (round_half_even (x / quantum x)) * quantum x"
  have x: "0 < x" using False assms by linarith
  have "of_int 0 \<le> x / quantum x" using x quantum_pos [of x] by simp
  then have "0 \<le> round_half_even (x / quantum x)" by (rule round_half_even_ge)
  then have l: "0 \<le> ?r" using quantum_pos [of x] by simp
  have u: "?r \<le> hi" using x assms(3,1) by (rule rnd_upper)
  have "hi \<noteq> 0" using x assms by linarith
  then have "\<bar>hi\<bar> < 2 ^ 1024" using is_double_structure(2) [OF assms(1)] by simp
  then have "\<not> 2 ^ 1024 \<le> ?r" "\<not> ?r \<le> - (2 ^ 1024)" using l u by linarith+
  then have "rnd x = Fin ?r" using x by (simp add: rnd_def Let_def)
  then show ?thesis using l u by blast
qed

lemma rnd_numeral: "(numeral n :: int) < 2 ^ 53 \<Longrightarrow> rnd (numeral n) = Fin (numeral n)"
  using rnd_of_int [of "numeral n"] by simp

lemma rnd_one: "rnd 1 = Fin 1"
  using rnd_of_int [of 1] by simp

section \<open>The operations on valid terms\<close>

lemma rnd_zero: "rnd 0 = Fin 0"
  by (simp add: rnd_def)

lemma is_double_one: "is_double 1"
  by (rule is_double_exact [of _ 1 0]) simp_all

lemma is_double_2_1018: "is_double (2 ^ 1018)"
  by (rule is_double_exact [of _ "2 ^ 52" 966]) simp_all

lemma is_double_2_1019: "is_double (2 ^ 1019)"
  by (rule is_double_exact [of _ "2 ^ 52" 967]) simp_all

lemma is_double_less: "is_double x \<Longrightarrow> x < 2 ^ 1024"
  using is_double_structure(2) [of x] by (cases "x = 0") simp_all

lemma rnd_ge:
  assumes "is_double lo" "0 < lo" "lo \<le> x"
  shows "rnd x = PInf \<or> (\<exists>r. rnd x = Fin r \<and> lo \<le> r)"
proof -
  let ?r = "of_int (round_half_even (x / quantum x)) * quantum x"
  have l: "lo \<le> ?r" using assms(2,3,1) by (rule rnd_lower)
  have x: "x \<noteq> 0" using assms by linarith
  have "\<not> ?r \<le> - (2 ^ 1024)" using l assms(2) by simp
  then show ?thesis using x l by (cases "2 ^ 1024 \<le> ?r") (simp_all add: rnd_def Let_def)
qed

lemma daily_interest_factor_ge_one:
  assumes "interest M = Fin i" "0 \<le> i" "is_double i"
  shows "\<exists>f. daily_interest_factor M = Fin f \<and> 1 \<le> f"
proof -
  have "i < 2 ^ 1024" using assms(3) by (rule is_double_less)
  then have "i / 100 \<le> 2 ^ 1018" by simp
  then obtain p where p: "rnd (i / 100) = Fin p" "0 \<le> p" "p \<le> 2 ^ 1018"
    using rnd_between_zero [OF is_double_2_1018, of "i / 100"] assms(2) by auto
  have "p / 365 \<le> 2 ^ 1018" using p(2,3) by simp
  then obtain p' where p': "rnd (p / 365) = Fin p'" "0 \<le> p'" "p' \<le> 2 ^ 1018"
    using rnd_between_zero [OF is_double_2_1018, of "p / 365"] p(2) by auto
  have "1 + p' \<le> 2 ^ 1019" using p'(3) by simp
  then obtain f where f: "rnd (1 + p') = Fin f" "1 \<le> f"
    using rnd_between [OF is_double_one is_double_2_1019, of "1 + p'"] p'(2) by auto
  show ?thesis using f by (simp add: daily_interest_factor_def assms(1) p(1) p'(1))
qed

lemma valid_terms_factor:
  "valid_terms M \<Longrightarrow> \<exists>f. daily_interest_factor M = Fin f \<and> 1 \<le> f"
  by (cases "interest M") (auto simp: valid_terms_def intro: daily_interest_factor_ge_one)

lemma float_of_int_cases:
  "float_of_int i = Inl OverflowError \<or> (\<exists>y. float_of_int i = Inr (Fin y))"
  by (simp add: float_of_int_def split: pyfloat.split)

lemma float_of_int_pos:
  assumes "1 \<le> i"
  shows "float_of_int i = Inl OverflowError \<or> (\<exists>y. float_of_int i = Inr (Fin y) \<and> 1 \<le> y)"
proof -
  have "(1::real) \<le> of_int i" using assms by simp
  then show ?thesis using rnd_ge [OF is_double_one, of "of_int i"]
    by (auto simp: float_of_int_def)
qed

lemma float_of_int_small: "\<bar>i\<bar> < 2 ^ 53 \<Longrightarrow> float_of_int i = Inr (Fin (of_int i))"
  by (simp add: float_of_int_def rnd_of_int)

lemma float_pow_pos:
  "0 < f \<Longrightarrow> float_pow pw (Fin f) (Fin y) =
     (if y = 0 \<or> f = 1 then Inr (Fin 1)
      else case pw f y of None \<Rightarrow> Inl OverflowError | Some r \<Rightarrow> Inr (Fin r))"
  by (simp add: finite_pow_def Let_def split: option.split)

lemma float_pow_pos_cases:
  assumes "0 < f"
  shows "float_pow pw (Fin f) w = Inl OverflowError \<or> (\<exists>A. float_pow pw (Fin f) w = Inr A)"
  using assms by (cases w) (simp_all add: finite_pow_def Let_def split: option.split)

lemma py_pow_pos_cases:
  assumes "0 < f"
  shows "py_pow pw (Fin f) n = Inl OverflowError \<or> (\<exists>A. py_pow pw (Fin f) n = Inr A)"
proof (cases n)
  case (PyInt i)
  show ?thesis
  proof (cases "float_of_int i")
    case (Inl e)
    then show ?thesis using float_of_int_cases [of i] PyInt by simp
  next
    case (Inr w)
    then show ?thesis using float_pow_pos_cases [OF assms, of pw w] PyInt
      by (simp del: float_pow.simps)
  qed
next
  case (PyFloat w)
  then show ?thesis using float_pow_pos_cases [OF assms, of pw w]
    by (simp del: float_pow.simps)
qed

lemma py_pow_pos_int:
  assumes "0 < f" "float_of_int i = Inr (Fin y)"
  shows "py_pow pw (Fin f) (PyInt i) =
     (if y = 0 \<or> f = 1 then Inr (Fin 1)
      else case pw f y of None \<Rightarrow> Inl OverflowError | Some r \<Rightarrow> Inr (Fin r))"
  using float_pow_pos [OF assms(1), of pw y] assms(2) by (simp del: float_pow.simps)

lemma finite_pow_not_ValueError: "finite_pow pw x y \<noteq> Inl ValueError"
  by (simp add: finite_pow_def Let_def split: option.split)

lemma float_pow_not_ValueError: "float_pow pw v w \<noteq> Inl ValueError"
  by (cases "(pw, v, w)" rule: float_pow.cases)
     (simp_all add: finite_pow_not_ValueError split: pyfloat.split)

lemma py_pow_not_ValueError: "py_pow pw v n \<noteq> Inl ValueError"
proof (cases n)
  case (PyInt i)
  show ?thesis
  proof (cases "float_of_int i")
    case (Inl e)
    then show ?thesis using float_of_int_cases [of i] PyInt by auto
  next
    case (Inr w)
    then show ?thesis using float_pow_not_ValueError [of pw v w] PyInt
      by (simp del: float_pow.simps)
  qed
next
  case (PyFloat w)
  then show ?thesis using float_pow_not_ValueError [of pw v w] by (simp del: float_pow.simps)
qed

lemma fdiv_not_ValueError: "fdiv a b \<noteq> Inl ValueError"
  by (simp add: fdiv_def)

lemma repayments_not_ValueError: "repayments pw M \<noteq> Inl ValueError"
  by (auto simp add: repayments_def Let_def py_pow_not_ValueError fdiv_not_ValueError
      simp del: py_pow.simps split: sum.splits)

lemma balance_after_in_range_not_ValueError:
  "\<not> less_zero n \<Longrightarrow> \<not> greater_int n (years M) \<Longrightarrow> balance_after pw M n \<noteq> Inl ValueError"
  by (auto simp add: balance_after_def Let_def py_pow_not_ValueError fdiv_not_ValueError
      repayments_not_ValueError simp del: py_pow.simps split: sum.splits)

lemma fsub_self_one: "fsub (Fin 1) (Fin 1) = Fin 0"
  by (simp add: fsub_def rnd_zero)

text \<open>What \<open>repayments\<close> does when the daily factor is a number not below 1.\<close>

lemma repayments_cases:
  assumes d: "daily_interest_factor M = Fin f" "1 \<le> f"
    and Y: "0 < years M" and k: "0 < r_frequency M" "r_frequency M < 2 ^ 53"
  shows "repayments pw M = Inl ZeroDivisionError \<or> repayments pw M = Inl OverflowError \<or>
     (\<exists>y A B. 1 < f \<and> float_of_int (365 * years M) = Inr (Fin y)
        \<and> pw f y = Some A \<and> pw f (of_int (r_frequency M)) = Some B
        \<and> fsub (Fin A) (Fin 1) \<noteq> Fin 0
        \<and> repayments pw M =
            Inr (fquot (fmul (fmul (loan M) (Fin A)) (fsub (Fin B) (Fin 1)))
                       (fsub (Fin A) (Fin 1))))"
proof -
  have f0: "0 < f" using d(2) by simp
  have kf: "float_of_int (r_frequency M) = Inr (Fin (of_int (r_frequency M)))"
    using k by (intro float_of_int_small) simp
  have k0: "(of_int (r_frequency M) :: real) \<noteq> 0" using k by simp
  have b: "py_pow pw (Fin f) (PyInt (r_frequency M)) =
     (if f = 1 then Inr (Fin 1)
      else case pw f (of_int (r_frequency M)) of
             None \<Rightarrow> Inl OverflowError | Some r \<Rightarrow> Inr (Fin r))"
    using py_pow_pos_int [OF f0 kf, of pw] k0 by simp
  consider "float_of_int (365 * years M) = Inl OverflowError"
    | y where "float_of_int (365 * years M) = Inr (Fin y)" "1 \<le> y"
    using float_of_int_pos [of "365 * years M"] Y by auto
  then show ?thesis
  proof cases
    case 1
    then show ?thesis by (simp add: repayments_def Let_def d(1))
  next
    case (2 y)
    then have y0: "y \<noteq> 0" by simp
    have a: "py_pow pw (Fin f) (PyInt (365 * years M)) =
       (if f = 1 then Inr (Fin 1)
        else case pw f y of None \<Rightarrow> Inl OverflowError | Some r \<Rightarrow> Inr (Fin r))"
      using py_pow_pos_int [OF f0 2(1), of pw] y0 by simp
    show ?thesis
    proof (cases "f = 1")
      case True
      then show ?thesis
        using a b by (simp add: repayments_def Let_def d(1) fsub_self_one fdiv_def
            del: py_pow.simps)
    next
      case False
      then have f1: "1 < f" using d(2) by simp
      show ?thesis
      proof (cases "pw f y")
        case None
        then show ?thesis
          using a False by (simp add: repayments_def Let_def d(1) del: py_pow.simps)
      next
        case (Some A)
        note A = this
        show ?thesis
        proof (cases "pw f (of_int (r_frequency M))")
          case None
          then show ?thesis
            using a b False A by (simp add: repayments_def Let_def d(1) del: py_pow.simps)
        next
          case (Some B)
          then show ?thesis
            using a b False f1 A 2(1)
            by (simp add: repayments_def Let_def d(1) fdiv_def del: py_pow.simps)
        qed
      qed
    qed
  qed
qed

lemma valid_terms_frequency:
  "valid_terms M \<Longrightarrow> 0 < r_frequency M \<and> r_frequency M < 2 ^ 53"
  by (auto simp: valid_terms_def)

text \<open>What \<open>balance_after\<close> does in range, once \<open>repayments\<close> has returned.\<close>

lemma balance_after_cases:
  assumes d: "daily_interest_factor M = Fin f" "1 \<le> f"
    and k: "0 < r_frequency M" "r_frequency M < 2 ^ 53"
    and n: "\<not> less_zero n" "\<not> greater_int n (years M)"
    and P: "repayments pw M = Inr P0"
  shows "balance_after pw M n = Inl ZeroDivisionError \<or> balance_after pw M n = Inl OverflowError \<or>
     (\<exists>A C. py_pow pw (Fin f) (times_365 n) = Inr A
        \<and> pw f (of_int (r_frequency M)) = Some C \<and> fsub (Fin C) (Fin 1) \<noteq> Fin 0
        \<and> balance_after pw M n =
            Inr (fsub (fmul (loan M) A)
                      (fmul P0 (fquot (fsub A (Fin 1)) (fsub (Fin C) (Fin 1))))))"
proof -
  have f0: "0 < f" using d(2) by simp
  have kf: "float_of_int (r_frequency M) = Inr (Fin (of_int (r_frequency M)))"
    using k by (intro float_of_int_small) simp
  have k0: "(of_int (r_frequency M) :: real) \<noteq> 0" using k by simp
  have c: "py_pow pw (Fin f) (PyInt (r_frequency M)) =
     (if f = 1 then Inr (Fin 1)
      else case pw f (of_int (r_frequency M)) of
             None \<Rightarrow> Inl OverflowError | Some r \<Rightarrow> Inr (Fin r))"
    using py_pow_pos_int [OF f0 kf, of pw] k0 by simp
  consider "py_pow pw (Fin f) (times_365 n) = Inl OverflowError"
    | A where "py_pow pw (Fin f) (times_365 n) = Inr A"
    using py_pow_pos_cases [OF f0, of pw "times_365 n"] by auto
  then show ?thesis
  proof cases
    case 1
    then show ?thesis using n P by (simp add: balance_after_def Let_def d(1))
  next
    case (2 A)
    show ?thesis
    proof (cases "f = 1")
      case True
      then show ?thesis
        using 2 n P c
        by (simp add: balance_after_def Let_def d(1) fsub_self_one fdiv_def
            del: py_pow.simps)
    next
      case False
      show ?thesis
      proof (cases "pw f (of_int (r_frequency M))")
        case None
        then show ?thesis
          using 2 n P c False
          by (simp add: balance_after_def Let_def d(1) del: py_pow.simps)
      next
        case (Some C)
        then show ?thesis
          using 2 n P c False
          by (simp add: balance_after_def Let_def d(1) fdiv_def del: py_pow.simps)
      qed
    qed
  qed
qed

lemma balance_after_repayments_error:
  "\<not> less_zero n \<Longrightarrow> \<not> greater_int n (years M) \<Longrightarrow> repayments pw M = Inl e
   \<Longrightarrow> balance_after pw M n = Inl e"
  by (simp add: balance_after_def Let_def)

lemma rnd_not_NaN: "rnd x \<noteq> NaN"
  by (simp add: rnd_def Let_def)

text \<open>What \<open>balance_after\<close> does on valid terms and a year count in range.\<close>

lemma balance_after_valid:
  assumes v: "valid_terms M" and n: "\<not> less_zero n" "\<not> greater_int n (years M)"
  shows "balance_after pw M n = Inl ZeroDivisionError
     \<or> balance_after pw M n = Inl OverflowError
     \<or> (\<exists>f P0 A C. daily_interest_factor M = Fin f \<and> 1 < f
          \<and> repayments pw M = Inr P0
          \<and> py_pow pw (Fin f) (times_365 n) = Inr A
          \<and> pw f (of_int (r_frequency M)) = Some C \<and> fsub (Fin C) (Fin 1) \<noteq> Fin 0
          \<and> balance_after pw M n =
              Inr (fsub (fmul (loan M) A)
                        (fmul P0 (fquot (fsub A (Fin 1)) (fsub (Fin C) (Fin 1))))))"
proof -
  obtain f where d: "daily_interest_factor M = Fin f" "1 \<le> f"
    using valid_terms_factor [OF v] by blast
  have Y: "0 < years M" using v by (simp add: valid_terms_def)
  have k: "0 < r_frequency M" "r_frequency M < 2 ^ 53"
    using valid_terms_frequency [OF v] by simp_all
  note rc = repayments_cases [OF d Y k, of pw]
  show ?thesis
  proof (cases "repayments pw M")
    case (Inl e)
    then have "balance_after pw M n = Inl e"
      using n by (intro balance_after_repayments_error)
    moreover have "e = ZeroDivisionError \<or> e = OverflowError" using rc Inl by auto
    ultimately show ?thesis by auto
  next
    case (Inr P0)
    then have f1: "1 < f" using rc by auto
    show ?thesis
      using balance_after_cases [OF d k n Inr] d(1) f1 Inr by blast
  qed
qed

lemma frequency_str_cases:
  "frequency_str M =
     (if r_frequency M = 7 then ''Weekly''
      else if r_frequency M = 14 then ''Fortnightly''
      else if r_frequency M = 30 then ''Monthly''
      else str_int (r_frequency M) @ '' days'')"
  by (simp add: frequency_str_def dict_get_def frequency_map_def)






section \<open>Evaluation at the example loans\<close>

lemmas eval_simps =
  repayments_def balance_after_def daily_interest_factor_def Let_def fsub_def fdiv_def
  float_of_int_def finite_pow_def pow_rn_def rnd_zero rnd_one rnd_numeral

lemma rnd_2_365: "rnd (2 ^ 365) = Fin (2 ^ 365)"
  by (rule rnd_exact [of _ "1" "365"]) simp_all

lemma rnd_2_365_minus_1: "rnd (2 ^ 365 - 1) = Fin (2 ^ 365)"
  by (subst rnd_binade [of "364"]) (simp_all add: power_int_minus round_half_even_def Let_def)

lemma factor_tiny_rate: "daily_interest_factor loan_tiny_rate = Fin 1"
proof -
  have r1: "rnd (1 / (25 * 2 ^ 42)) = Fin (5764607523034235 / 2 ^ 99)"
    by (subst rnd_binade [of "-47"]) (simp_all add: power_int_minus round_half_even_def Let_def)
  have r2: "rnd (1152921504606847 / (73 * 2 ^ 99)) = Fin (2021560994379129 / 2 ^ 106)"
    by (subst rnd_binade [of "-56"]) (simp_all add: power_int_minus round_half_even_def Let_def)
  have r3: "rnd (81129638414606683717349999523193 / 2 ^ 106) = Fin 1"
    by (subst rnd_binade [of "0"]) (simp_all add: power_int_minus round_half_even_def Let_def)
  show ?thesis using r1 r2 r3 by (simp add: eval_simps)
qed

lemma repayments_factor_one:
  assumes "daily_interest_factor M = Fin 1" "\<bar>365 * years M\<bar> < 2 ^ 53" "\<bar>r_frequency M\<bar> < 2 ^ 53"
  shows "repayments pw M = Inl ZeroDivisionError"
  using assms float_of_int_small [of "365 * years M"] float_of_int_small [of "r_frequency M"]
  by (simp add: repayments_def Let_def float_pow_pos fsub_self_one fdiv_def finite_pow_def)

lemma repayments_tiny_rate: "repayments pw loan_tiny_rate = Inl ZeroDivisionError"
  by (rule repayments_factor_one [OF factor_tiny_rate]) simp_all

lemma repayments_factor_2: "repayments pow_rn loan_factor_2 = Inr (Fin 127000)"
proof -
  have r2: "rnd (125 * 2 ^ 368) = Fin (125 * 2 ^ 368)"
    by (rule rnd_exact [of _ "125" "368"]) simp_all
  have r3: "rnd (15875 * 2 ^ 368) = Fin (15875 * 2 ^ 368)"
    by (rule rnd_exact [of _ "15875" "368"]) simp_all
  show ?thesis using rnd_2_365 r2 r3 rnd_2_365_minus_1 by (simp add: eval_simps)
qed

lemma balance_factor_2_at_0: "balance_after pow_rn loan_factor_2 (PyInt 0) = Inr (Fin 1000)"
  unfolding balance_after_def repayments_factor_2
  by (simp add: eval_simps)

lemma balance_factor_2_at_1: "balance_after pow_rn loan_factor_2 (PyInt 1) = Inr (Fin 0)"
proof -
  have c1: "rnd (2 ^ 365 / 127) = Fin (567382630219905 * 2 ^ 309)"
    by (subst rnd_binade [of "358"]) (simp_all add: power_int_minus round_half_even_def Let_def)
  have c2: "rnd (9007199254740991875 * 2 ^ 312) = Fin (125 * 2 ^ 368)"
    by (subst rnd_binade [of "374"]) (simp_all add: power_int_minus round_half_even_def Let_def)
  have r2: "rnd (125 * 2 ^ 368) = Fin (125 * 2 ^ 368)"
    by (rule rnd_exact [of _ "125" "368"]) simp_all
  show ?thesis
    unfolding balance_after_def repayments_factor_2
    using rnd_2_365 r2 rnd_2_365_minus_1 c1 c2 by (simp add: eval_simps)
qed

lemma rnd_2_1388: "rnd (2 ^ 1388) = PInf"
  by (subst rnd_binade [of "1388"]) (simp_all add: power_int_minus round_half_even_def Let_def)

lemma rnd_2_1023: "rnd (2 ^ 1023) = Fin (2 ^ 1023)"
  by (rule rnd_exact [of _ "4503599627370496" "971"]) simp_all

lemma repayments_huge:
  "repayments pow_rn (loan_huge 7) = Inr PInf"
  "repayments pow_rn (loan_huge 14) = Inr PInf"
  "repayments pow_rn (loan_huge 30) = Inr PInf"
  using rnd_2_365 rnd_2_1388 rnd_2_365_minus_1 by (simp_all add: eval_simps)

lemma balance_huge_at_0: "balance_after pow_rn (loan_huge 7) (PyInt 0) = Inr NaN"
  unfolding balance_after_def repayments_huge
  using rnd_2_1023 by (simp add: eval_simps)


lemma repayments_ten_days:
  "repayments pow_rn \<lparr>loan = Fin 1000, years = 1, interest = Fin 36500, r_frequency = 10\<rparr>
     = Inr (Fin 1023000)"
proof -
  have r2: "rnd (125 * 2 ^ 368) = Fin (125 * 2 ^ 368)"
    by (rule rnd_exact [of _ "125" "368"]) simp_all
  have r3: "rnd (127875 * 2 ^ 368) = Fin (127875 * 2 ^ 368)"
    by (rule rnd_exact [of _ "127875" "368"]) simp_all
  show ?thesis using rnd_2_365 r2 r3 rnd_2_365_minus_1 by (simp add: eval_simps)
qed

lemma format_2f_examples:
  "format_2f (Fin 1000) = ''1000.00''"
  "format_2f (Fin 36500) = ''36500.00''"
  "format_2f (Fin 1023000) = ''1023000.00''"
  by (simp_all add: round_half_even_def Let_def str_nat.simps digit_char_def)




lemma four_powr_half_year: "(4::real) powr (365 / 2) = 2 ^ 365"
proof -
  have "(4::real) = 2 powr 2" by simp
  then have "(4::real) powr (365 / 2) = (2 powr 2) powr (365 / 2)" by simp
  also have "\<dots> = 2 powr 365" by (simp only: powr_powr) simp
  also have "\<dots> = 2 ^ 365" by simp
  finally show ?thesis .
qed

lemma repayments_factor_4: "repayments pow_rn loan_factor_4 = Inr (Fin 16383000)"
proof -
  have r1: "rnd (2 ^ 730) = Fin (2 ^ 730)"
    by (rule rnd_exact [of _ "1" "730"]) simp_all
  have r2: "rnd (125 * 2 ^ 733) = Fin (125 * 2 ^ 733)"
    by (rule rnd_exact [of _ "125" "733"]) simp_all
  have r3: "rnd (2047875 * 2 ^ 733) = Fin (2047875 * 2 ^ 733)"
    by (rule rnd_exact [of _ "2047875" "733"]) simp_all
  have r4: "rnd (2 ^ 730 - 1) = Fin (2 ^ 730)"
    by (subst rnd_binade [of "729"]) (simp_all add: power_int_minus round_half_even_def Let_def)
  show ?thesis using r1 r2 r3 r4 by (simp add: eval_simps)
qed

lemma balance_factor_4_at_half: "balance_after pow_rn loan_factor_4 (PyFloat (Fin (1 / 2))) = Inr (Fin 0)"
proof -
  have c1: "rnd (365 / 2) = Fin (365 / 2)"
    by (rule rnd_exact [of _ "365" "-1"]) simp_all
  have c4: "rnd (2 ^ 365 / 16383) = Fin (4398314962945 * 2 ^ 309)"
    by (subst rnd_binade [of "351"]) (simp_all add: power_int_minus round_half_even_def Let_def)
  have c5: "rnd (125 * 2 ^ 368) = Fin (125 * 2 ^ 368)"
    by (rule rnd_exact [of _ "125" "368"]) simp_all
  have c6: "rnd (9007199254740991875 * 2 ^ 312) = Fin (125 * 2 ^ 368)"
    by (subst rnd_binade [of "374"]) (simp_all add: power_int_minus round_half_even_def Let_def)
  show ?thesis
    unfolding balance_after_def repayments_factor_4
    using c1 rnd_2_365 rnd_2_365_minus_1 c4 c5 c6 four_powr_half_year
    by (simp add: eval_simps)
qed

lemma is_double_numeral: "(numeral n :: int) < 2 ^ 53 \<Longrightarrow> is_double (numeral n)"
  by (simp add: is_double_def rnd_numeral)

lemma is_double_tiny_rate: "is_double (1 / 2 ^ 40)"
  by (rule is_double_exact [of _ 1 "- 40"]) (simp_all add: power_int_minus field_simps)

lemma valid_terms_factor_2: "valid_terms loan_factor_2"
  by (simp add: valid_terms_def is_double_numeral)


lemma valid_terms_factor_4: "valid_terms loan_factor_4"
  by (simp add: valid_terms_def is_double_numeral)

lemma valid_terms_tiny_rate: "valid_terms loan_tiny_rate"
  using is_double_tiny_rate by (simp add: valid_terms_def is_double_numeral)

lemma valid_terms_huge: "valid_terms (loan_huge 7)"
  using rnd_2_1023 by (simp add: valid_terms_def is_double_def rnd_numeral)

section \<open>Facts of exact arithmetic\<close>




section \<open>The repayment amount\<close>










section \<open>The balance\<close>

text \<open>
  Claim C2 as stated, that on valid terms and for whole years within the term
  \<open>balance_after\<close> returns the value of the balance formula, does not hold of the code:
  at the rate of \<open>2^(-40)\<close> percent it calls \<open>repayments\<close>, which raises
  \<open>ZeroDivisionError\<close>, so the balance after 10 of the 30 years is not returned.
\<close>

theorem balance_tiny_rate_counterexample:
  "valid_terms loan_tiny_rate \<and> balance_after pow_rn loan_tiny_rate (PyInt 10) = Inl ZeroDivisionError"
proof -
  have "balance_after pow_rn loan_tiny_rate (PyInt 10) = Inl ZeroDivisionError"
    by (rule balance_after_repayments_error [OF _ _ repayments_tiny_rate]) simp_all
  then show ?thesis using valid_terms_tiny_rate by simp
qed

text \<open>
  Claim C2, amended to what the code does. On valid terms and for a whole number of
  years \<open>m\<close> between 0 and the term, \<open>balance_after\<close> raises \<open>ZeroDivisionError\<close>, or
  raises \<open>OverflowError\<close>, or returns the balance formula evaluated in binary64
  arithmetic: \<open>principal * A - P0 * ((A - 1) / (C - 1))\<close>, every operation rounded, where
  \<open>P0\<close> is what \<open>repayments\<close> returns, \<open>f\<close> is the rounded daily factor, greater than 1,
  \<open>A\<close> is \<open>f ** (365 * m)\<close> and \<open>C\<close> is the C library's \<open>pow(f, k)\<close>.
\<close>

theorem balance_formula:
  assumes "valid_terms M" "0 \<le> m" "m \<le> years M"
  shows "balance_after pw M (PyInt m) = Inl ZeroDivisionError
     \<or> balance_after pw M (PyInt m) = Inl OverflowError
     \<or> (\<exists>f P0 A C. daily_interest_factor M = Fin f \<and> 1 < f
          \<and> repayments pw M = Inr P0
          \<and> py_pow pw (Fin f) (PyInt (365 * m)) = Inr A
          \<and> pw f (of_int (r_frequency M)) = Some C \<and> fsub (Fin C) (Fin 1) \<noteq> Fin 0
          \<and> balance_after pw M (PyInt m) =
              Inr (fsub (fmul (loan M) A)
                        (fmul P0 (fquot (fsub A (Fin 1)) (fsub (Fin C) (Fin 1))))))"
  using balance_after_valid [OF assms(1), of "PyInt m" pw] assms(2,3)
  by (simp del: py_pow.simps)

theorem balance_formula_witness:
  "valid_terms loan_factor_2 \<and> (0::int) \<le> 1 \<and> 1 \<le> years loan_factor_2
   \<and> balance_after pow_rn loan_factor_2 (PyInt 1) = Inr (Fin 0)
   \<and> (\<exists>f P0 A C. daily_interest_factor loan_factor_2 = Fin f \<and> 1 < f
          \<and> repayments pow_rn loan_factor_2 = Inr P0
          \<and> py_pow pow_rn (Fin f) (PyInt (365 * 1)) = Inr A
          \<and> pow_rn f (of_int (r_frequency loan_factor_2)) = Some C \<and> fsub (Fin C) (Fin 1) \<noteq> Fin 0
          \<and> Inr (Fin 0) =
              Inr (fsub (fmul (loan loan_factor_2) A)
                        (fmul P0 (fquot (fsub A (Fin 1)) (fsub (Fin C) (Fin 1))))))"
  using balance_formula [OF valid_terms_factor_2, of 1 pow_rn] valid_terms_factor_2 balance_factor_2_at_1
  by (simp del: py_pow.simps)







text \<open>
  Claim C7 as stated, that on valid terms the balance after 0 years is the principal,
  does not hold of the code. On the valid terms with a principal of \<open>2^1023\<close> the
  repayment amount is \<open>inf\<close>; the balance formula multiplies it by 0.0, and
  \<open>balance_after\<close> returns NaN.
\<close>

theorem balance_at_zero_counterexample:
  "valid_terms (loan_huge 7)
   \<and> balance_after pow_rn (loan_huge 7) (PyInt 0) = Inr NaN
   \<and> NaN \<noteq> loan (loan_huge 7)"
  using valid_terms_huge balance_huge_at_0 by simp

text \<open>
  Claim C7, amended to what the code does. On valid terms, whenever \<open>balance_after\<close>
  returns a value for 0 years, \<open>repayments\<close> has returned an amount, and the value is
  the principal, bit for bit, when that amount is finite, and NaN when it is not.
\<close>

theorem balance_at_zero_is_loan:
  assumes "valid_terms M" "balance_after pw M (PyInt 0) = Inr v"
  shows "\<exists>P0. repayments pw M = Inr P0 \<and> v = (case P0 of Fin p \<Rightarrow> loan M | _ \<Rightarrow> NaN)"
proof -
  have n: "\<not> less_zero (PyInt 0)" "\<not> greater_int (PyInt 0) (years M)"
    using assms(1) by (simp_all add: valid_terms_def)
  obtain f P0 A C where f: "daily_interest_factor M = Fin f" "1 < f"
    and P: "repayments pw M = Inr P0"
    and A: "py_pow pw (Fin f) (times_365 (PyInt 0)) = Inr A"
    and C: "fsub (Fin C) (Fin 1) \<noteq> Fin 0"
    and b: "balance_after pw M (PyInt 0) =
              Inr (fsub (fmul (loan M) A)
                        (fmul P0 (fquot (fsub A (Fin 1)) (fsub (Fin C) (Fin 1)))))"
    using balance_after_valid [OF assms(1) n, of pw] assms(2) by auto
  have A1: "A = Fin 1" using A float_of_int_small [of 0] by simp
  obtain l where l: "loan M = Fin l" "is_double l"
    using assms(1) by (cases "loan M") (simp_all add: valid_terms_def)
  have q: "fquot (Fin 0) (fsub (Fin C) (Fin 1)) = Fin 0"
    using rnd_not_NaN [of "C - 1"] by (cases "rnd (C - 1)") (simp_all add: fsub_def rnd_zero)
  have "v = fsub (Fin l) (fmul P0 (Fin 0))"
    using b assms(2) l q by (simp add: A1 fsub_self_one is_double_def)
  then have "v = (case P0 of Fin p \<Rightarrow> loan M | _ \<Rightarrow> NaN)"
    using l by (cases P0) (simp_all add: fsub_def rnd_zero is_double_def)
  then show ?thesis using P by blast
qed

theorem balance_at_zero_is_loan_witness:
  "valid_terms loan_factor_2 \<and> balance_after pow_rn loan_factor_2 (PyInt 0) = Inr (Fin 1000)
   \<and> (\<exists>P0. repayments pow_rn loan_factor_2 = Inr P0
         \<and> Fin 1000 = (case P0 of Fin p \<Rightarrow> loan loan_factor_2 | _ \<Rightarrow> NaN))"
  using balance_at_zero_is_loan [OF valid_terms_factor_2 balance_factor_2_at_0] valid_terms_factor_2 balance_factor_2_at_0
  by simp

section \<open>The range of the year count\<close>

text \<open>
  Claim C5 as stated ends with: on valid terms \<open>balance_after\<close> succeeds for every year
  count within the term. That part does not hold of the code: at the rate of \<open>2^(-40)\<close>
  percent one year is within the term of 30, and \<open>balance_after\<close> raises
  \<open>ZeroDivisionError\<close>.
\<close>

theorem balance_in_range_counterexample:
  "valid_terms loan_tiny_rate
   \<and> \<not> less_zero (PyInt 1) \<and> \<not> greater_int (PyInt 1) (years loan_tiny_rate)
   \<and> balance_after pow_rn loan_tiny_rate (PyInt 1) = Inl ZeroDivisionError"
proof -
  have "balance_after pow_rn loan_tiny_rate (PyInt 1) = Inl ZeroDivisionError"
    by (rule balance_after_repayments_error [OF _ _ repayments_tiny_rate]) simp_all
  then show ?thesis using valid_terms_tiny_rate by simp
qed

text \<open>
  Claim C5, amended to what the code does. \<open>balance_after\<close> raises \<open>ValueError\<close>, its
  out-of-range condition, if and only if \<open>n < 0 or n > self.years\<close>; so it does for -1
  and for the term plus 1. On valid terms a year count within the range never meets
  that condition: \<open>balance_after\<close> returns a value then, or raises \<open>ZeroDivisionError\<close>
  or \<open>OverflowError\<close>.
\<close>

theorem balance_after_range_check:
  "(balance_after pw M n = Inl ValueError \<longleftrightarrow> less_zero n \<or> greater_int n (years M))
   \<and> balance_after pw M (PyInt (- 1)) = Inl ValueError
   \<and> balance_after pw M (PyInt (years M + 1)) = Inl ValueError
   \<and> (valid_terms M \<and> \<not> less_zero n \<and> \<not> greater_int n (years M) \<longrightarrow>
        (\<exists>b. balance_after pw M n = Inr b)
        \<or> balance_after pw M n = Inl ZeroDivisionError
        \<or> balance_after pw M n = Inl OverflowError)"
proof -
  have 1: "balance_after pw M n = Inl ValueError \<longleftrightarrow> less_zero n \<or> greater_int n (years M)"
  proof (cases "less_zero n \<or> greater_int n (years M)")
    case True
    then show ?thesis by (auto simp: balance_after_def)
  next
    case False
    then have "balance_after pw M n \<noteq> Inl ValueError"
      by (intro balance_after_in_range_not_ValueError) simp_all
    with False show ?thesis by simp
  qed
  have 2: "balance_after pw M (PyInt (- 1)) = Inl ValueError"
    by (simp add: balance_after_def)
  have 3: "balance_after pw M (PyInt (years M + 1)) = Inl ValueError"
    by (simp add: balance_after_def)
  have 4: "(\<exists>b. balance_after pw M n = Inr b)
        \<or> balance_after pw M n = Inl ZeroDivisionError
        \<or> balance_after pw M n = Inl OverflowError"
    if "valid_terms M" "\<not> less_zero n" "\<not> greater_int n (years M)"
    using balance_after_valid [OF that, of pw] by blast
  from 1 2 3 4 show ?thesis by blast
qed

theorem balance_after_range_check_witness:
  "valid_terms loan_factor_2
   \<and> \<not> less_zero (PyInt 1) \<and> \<not> greater_int (PyInt 1) (years loan_factor_2)
   \<and> balance_after pow_rn loan_factor_2 (PyInt 1) \<noteq> Inl ValueError
   \<and> balance_after pow_rn loan_factor_2 (PyInt 1) = Inr (Fin 0)
   \<and> greater_int (PyInt 2) (years loan_factor_2)
   \<and> balance_after pow_rn loan_factor_2 (PyInt 2) = Inl ValueError
   \<and> less_zero (PyInt (- 1))
   \<and> balance_after pow_rn loan_factor_2 (PyInt (- 1)) = Inl ValueError"
  using balance_after_range_check [of pow_rn loan_factor_2 "PyInt 1"]
    balance_after_range_check [of pow_rn loan_factor_2 "PyInt 2"]
    valid_terms_factor_2 balance_factor_2_at_1
  by simp

text \<open>
  Claim C10 as stated, that on valid terms \<open>balance_after\<close> returns the balance for every
  real year count within the term without raising any error, does not hold of the
  code: at the rate of \<open>2^(-40)\<close> percent the year count 2.5 is within the term of 30,
  and \<open>balance_after\<close> raises \<open>ZeroDivisionError\<close>.
\<close>

theorem balance_fractional_counterexample:
  "valid_terms loan_tiny_rate
   \<and> \<not> less_zero (PyFloat (Fin (5 / 2)))
   \<and> \<not> greater_int (PyFloat (Fin (5 / 2))) (years loan_tiny_rate)
   \<and> balance_after pow_rn loan_tiny_rate (PyFloat (Fin (5 / 2))) = Inl ZeroDivisionError"
proof -
  have "balance_after pow_rn loan_tiny_rate (PyFloat (Fin (5 / 2))) = Inl ZeroDivisionError"
    by (rule balance_after_repayments_error [OF _ _ repayments_tiny_rate]) simp_all
  then show ?thesis using valid_terms_tiny_rate by simp
qed

text \<open>
  Claim C10, amended to what the code does. \<open>balance_after\<close> takes a float year count
  \<open>x\<close>, whole or not: on valid terms and for \<open>0 \<le> x \<le> term\<close> it does not raise
  \<open>ValueError\<close>; it raises \<open>ZeroDivisionError\<close>, or raises \<open>OverflowError\<close>, or returns
  the balance formula evaluated in binary64 arithmetic at \<open>x\<close>:
  \<open>principal * A - P0 * ((A - 1) / (C - 1))\<close>, every operation rounded, with
  \<open>A = f ** (365 * x)\<close>, the product \<open>365 * x\<close> rounded too.
\<close>

theorem balance_after_fractional_years:
  assumes "valid_terms M" "0 \<le> x" "x \<le> of_int (years M)"
  shows "balance_after pw M (PyFloat (Fin x)) \<noteq> Inl ValueError
     \<and> (balance_after pw M (PyFloat (Fin x)) = Inl ZeroDivisionError
        \<or> balance_after pw M (PyFloat (Fin x)) = Inl OverflowError
        \<or> (\<exists>f P0 A C. daily_interest_factor M = Fin f \<and> 1 < f
             \<and> repayments pw M = Inr P0
             \<and> float_pow pw (Fin f) (fmul (Fin 365) (Fin x)) = Inr A
             \<and> pw f (of_int (r_frequency M)) = Some C \<and> fsub (Fin C) (Fin 1) \<noteq> Fin 0
             \<and> balance_after pw M (PyFloat (Fin x)) =
                 Inr (fsub (fmul (loan M) A)
                           (fmul P0 (fquot (fsub A (Fin 1)) (fsub (Fin C) (Fin 1)))))))"
proof -
  have n: "\<not> less_zero (PyFloat (Fin x))" "\<not> greater_int (PyFloat (Fin x)) (years M)"
    using assms(2,3) by simp_all
  have "balance_after pw M (PyFloat (Fin x)) \<noteq> Inl ValueError"
    using n by (rule balance_after_in_range_not_ValueError)
  moreover have "times_365 (PyFloat (Fin x)) = PyFloat (fmul (Fin 365) (Fin x))" by simp
  ultimately show ?thesis
    using balance_after_valid [OF assms(1) n, of pw]
    by (simp del: fmul.simps float_pow.simps)
qed

theorem balance_after_fractional_years_witness:
  "valid_terms loan_factor_4 \<and> (0::real) \<le> 1 / 2 \<and> (1 / 2 :: real) \<le> of_int (years loan_factor_4)
   \<and> balance_after pow_rn loan_factor_4 (PyFloat (Fin (1 / 2))) = Inr (Fin 0)
   \<and> (\<exists>f P0 A C. daily_interest_factor loan_factor_4 = Fin f \<and> 1 < f
         \<and> repayments pow_rn loan_factor_4 = Inr P0
         \<and> float_pow pow_rn (Fin f) (fmul (Fin 365) (Fin (1 / 2))) = Inr A
         \<and> pow_rn f (of_int (r_frequency loan_factor_4)) = Some C \<and> fsub (Fin C) (Fin 1) \<noteq> Fin 0
         \<and> Inr (Fin 0) =
             Inr (fsub (fmul (loan loan_factor_4) A)
                       (fmul P0 (fquot (fsub A (Fin 1)) (fsub (Fin C) (Fin 1))))))"
  using balance_after_fractional_years [OF valid_terms_factor_4, of "1 / 2" pow_rn]
    valid_terms_factor_4 balance_factor_4_at_half
  by (simp del: fmul.simps float_pow.simps)

section \<open>The summary\<close>

text \<open>
  Claim C9. The summary \<open>__str__\<close> names the repayment interval \<open>Weekly\<close> for 7,
  \<open>Fortnightly\<close> for 14, \<open>Monthly\<close> for 30, and for any other value \<open>n\<close> the decimal
  digits of \<open>n\<close> followed by \<open>days\<close>; for 10 that is \<open>10 days\<close>.
\<close>

theorem describe_frequency_label:
  "(repayments pw M = Inr r \<longrightarrow>
      str_Mortgage pw M =
        Inr (''Loan Amount: '' @ format_2f (loan M) @ '' AUD'' @ [CHR 0x0A]
             @ ''Loan Term (Years): '' @ str_int (years M) @ [CHR 0x0A]
             @ ''Interest: '' @ format_2f (interest M) @ ''%'' @ [CHR 0x0A]
             @ (if r_frequency M = 7 then ''Weekly''
                else if r_frequency M = 14 then ''Fortnightly''
                else if r_frequency M = 30 then ''Monthly''
                else str_int (r_frequency M) @ '' days'')
             @ '' Repayments: '' @ format_2f r @ '' AUD''))
   \<and> str_int 10 @ '' days'' = ''10 days''"
  by (simp add: str_Mortgage_def frequency_str_cases str_int_def str_nat.simps digit_char_def)

theorem describe_frequency_label_witness:
  "repayments pow_rn \<lparr>loan = Fin 1000, years = 1, interest = Fin 36500, r_frequency = 10\<rparr>
     = Inr (Fin 1023000)
   \<and> str_Mortgage pow_rn \<lparr>loan = Fin 1000, years = 1, interest = Fin 36500, r_frequency = 10\<rparr>
     = Inr (''Loan Amount: 1000.00 AUD'' @ [CHR 0x0A]
            @ ''Loan Term (Years): 1'' @ [CHR 0x0A]
            @ ''Interest: 36500.00%'' @ [CHR 0x0A]
            @ ''10 days Repayments: 1023000.00 AUD'')"
  using describe_frequency_label
      [of pow_rn "\<lparr>loan = Fin 1000, years = 1, interest = Fin 36500, r_frequency = 10\<rparr>"
          "Fin 1023000"]
    repayments_ten_days format_2f_examples
  by (simp add: str_int_def str_nat.simps digit_char_def)

end
